theory Spec2Isabelle
  imports Main "HOL-Library.AList" "HOL-Library.Log_Nat"
begin

section \<open>The self-healing locator engine (src/utils/healer.ts)\<close>

text \<open>
  The class \<open>TestHealer\<close> resolves a locator on a browser page and, when the locator
  fails, tries alternative locators synthesised from the attributes of the element.
  The browser page is an external collaborator: it is modelled as a record of the
  queries the healer sends to it, each returning either a value or a rejection.
  Building a locator (\<open>page.locator\<close>, \<open>page.getByTestId\<close>, \<open>.first()\<close>, ...) does not
  touch the page: it is a constructor of the datatype \<open>handle\<close>.
  Strings are lists of characters; a character stands for one code unit below 256.
\<close>

subsection \<open>Strings as the source uses them\<close>

text \<open>A string or null in a condition: null and the empty string are falsy.\<close>

fun truthy :: "string option \<Rightarrow> bool" where
  "truthy None = False"
| "truthy (Some s) = (s \<noteq> [])"

text \<open>
  White space of \<open>String.prototype.trim\<close> among the code units below 256:
  TAB, LF, VT, FF, CR, SPACE and NBSP.
\<close>

definition js_whitespace :: "char \<Rightarrow> bool" where
  "js_whitespace c = (of_char c \<in> {9, 10, 11, 12, 13, 32, 160 :: nat})"

definition trim :: "string \<Rightarrow> string" where
  "trim s = rev (dropWhile js_whitespace (rev (dropWhile js_whitespace s)))"

text \<open>\<open>s.split(c)\<close> for a one-character separator: the empty string gives one empty piece.\<close>

fun split :: "char \<Rightarrow> string \<Rightarrow> string list" where
  "split c [] = [[]]"
| "split c (x # xs) =
     (if x = c then [] # split c xs
      else (case split c xs of [] \<Rightarrow> [[x]] | w # ws \<Rightarrow> (x # w) # ws))"

fun join :: "string \<Rightarrow> string list \<Rightarrow> string" where
  "join sep [] = []"
| "join sep [w] = w"
| "join sep (w # ws) = w @ sep @ join sep ws"

subsection \<open>Data model\<close>

datatype strategy_type = CSS | XPath | Text | Role | TestId | Label | Placeholder

text \<open>The string that the union type of \<open>LocatorStrategy.type\<close> carries at run time.\<close>

fun type_name :: "strategy_type \<Rightarrow> string" where
  "type_name CSS = ''css''"
| "type_name XPath = ''xpath''"
| "type_name Text = ''text''"
| "type_name Role = ''role''"
| "type_name TestId = ''testId''"
| "type_name Label = ''label''"
| "type_name Placeholder = ''placeholder''"

record LocatorStrategy =
  s_type :: strategy_type
  s_value :: string
  s_priority :: int

record HealingResult =
  success :: bool
  originalLocator :: string
  healedLocator :: "string option"
  strategy :: "string option"
  attempts :: nat

text \<open>
  A \<open>Map\<close> of the source is an association list in insertion order with distinct keys:
  \<open>set\<close> is \<open>AList.update\<close> (an existing key keeps its place, a new key goes to the
  end), \<open>get\<close> is \<open>map_of\<close>, \<open>size\<close> is \<open>length\<close>.
\<close>

record TestHealer =
  healingHistory :: "(string \<times> HealingResult) list"
  locatorCache :: "(string \<times> string) list"

definition new_TestHealer :: TestHealer where
  "new_TestHealer = \<lparr>healingHistory = [], locatorCache = []\<rparr>"

subsection \<open>The page\<close>

datatype handle =
    Locator string
  | GetByTestId string
  | GetByText string
  | GetByRole string
  | GetByLabel string
  | GetByPlaceholder string
  | First handle

text \<open>
  What a query of the page answers: \<open>Inl e\<close> is a rejected promise with error \<open>e\<close>,
  \<open>Inr v\<close> a value; for \<open>waitFor\<close>, \<open>None\<close> is success. \<open>isVisible\<close> takes its optional
  timeout, \<open>waitFor\<close> its timeout (the state waited for is always \<open>visible\<close>).
\<close>

record page =
  isVisible :: "handle \<Rightarrow> nat option \<Rightarrow> string + bool"
  getAttribute :: "handle \<Rightarrow> string \<Rightarrow> string + string option"
  textContent :: "handle \<Rightarrow> string + string option"
  waitFor :: "handle \<Rightarrow> nat \<Rightarrow> string option"

text \<open>The queries a call sends to the page, in order.\<close>

datatype provider_call =
    IsVisible handle "nat option"
  | GetAttribute handle string
  | TextContent handle
  | WaitFor handle nat

text \<open>\<open>promise.catch(() => d)\<close>: a rejection becomes the default.\<close>

fun catch :: "'e + 'a \<Rightarrow> 'a \<Rightarrow> 'a" where
  "catch (Inl e) d = d"
| "catch (Inr v) d = v"

text \<open>
  What \<open>findElement\<close> throws: the error caught from the page and thrown again, or a new
  \<open>Error\<close> with a message.
\<close>

datatype js_error = Rethrown string | Error string

subsection \<open>generateAlternativeStrategies\<close>

text \<open>The eight attribute reads of a visible element, in the order of the source.\<close>

definition attribute_calls :: "handle \<Rightarrow> provider_call list" where
  "attribute_calls element =
     [GetAttribute element ''id'', GetAttribute element ''class'',
      GetAttribute element ''name'', GetAttribute element ''data-testid'',
      GetAttribute element ''aria-label'', GetAttribute element ''placeholder'',
      TextContent element, GetAttribute element ''role'']"

text \<open>
  One \<open>if (a) strategies.push(mk a)\<close> of the source: nothing is pushed for null or
  the empty string.
\<close>

definition push_if :: "string option \<Rightarrow> (string \<Rightarrow> LocatorStrategy) \<Rightarrow> LocatorStrategy list" where
  "push_if a mk = (case a of None \<Rightarrow> [] | Some v \<Rightarrow> if v = [] then [] else [mk v])"

definition class_strategy :: "string option \<Rightarrow> LocatorStrategy list" where
  "class_strategy className =
     (case className of
        None \<Rightarrow> []
      | Some cn \<Rightarrow>
          if cn = [] then []
          else (let classes = filter (\<lambda>c. c \<noteq> []) (split CHR '' '' cn)
                in if length classes > 0
                   then [\<lparr>s_type = CSS, s_value = ''.'' @ join ''.'' classes, s_priority = 8\<rparr>]
                   else []))"

text \<open>What the eight reads returned: a rejected read counts as null.\<close>

record attributes =
  a_id :: "string option"
  a_className :: "string option"
  a_name :: "string option"
  a_testId :: "string option"
  a_ariaLabel :: "string option"
  a_placeholder :: "string option"
  a_text :: "string option"
  a_role :: "string option"

definition read_attributes :: "page \<Rightarrow> handle \<Rightarrow> attributes" where
  "read_attributes pg element =
     \<lparr>a_id = catch (getAttribute pg element ''id'') None,
      a_className = catch (getAttribute pg element ''class'') None,
      a_name = catch (getAttribute pg element ''name'') None,
      a_testId = catch (getAttribute pg element ''data-testid'') None,
      a_ariaLabel = catch (getAttribute pg element ''aria-label'') None,
      a_placeholder = catch (getAttribute pg element ''placeholder'') None,
      a_text = catch (textContent pg element) None,
      a_role = catch (getAttribute pg element ''role'') None\<rparr>"

text \<open>The sequence of \<open>if\<close> statements that fill \<open>strategies\<close>, in the order of the source.\<close>

definition build_strategies :: "attributes \<Rightarrow> LocatorStrategy list" where
  "build_strategies a =
     push_if (a_testId a) (\<lambda>v. \<lparr>s_type = TestId, s_value = v, s_priority = 1\<rparr>)
     @ push_if (a_id a) (\<lambda>v. \<lparr>s_type = CSS, s_value = ''#'' @ v, s_priority = 2\<rparr>)
     @ push_if (a_name a) (\<lambda>v. \<lparr>s_type = CSS,
          s_value = ''[name='' @ [CHR 0x22] @ v @ [CHR 0x22] @ '']'', s_priority = 3\<rparr>)
     @ push_if (a_ariaLabel a) (\<lambda>v. \<lparr>s_type = Label, s_value = v, s_priority = 4\<rparr>)
     @ push_if (a_placeholder a)
         (\<lambda>v. \<lparr>s_type = Placeholder, s_value = v, s_priority = 5\<rparr>)
     @ push_if (a_role a) (\<lambda>v. \<lparr>s_type = Role, s_value = v, s_priority = 6\<rparr>)
     @ (case a_text a of
          None \<Rightarrow> []
        | Some t \<Rightarrow>
            if t \<noteq> [] \<and> trim t \<noteq> []
            then [\<lparr>s_type = Text, s_value = trim t, s_priority = 7\<rparr>]
            else [])
     @ class_strategy (a_className a)"

text \<open>
  The function itself. The element is \<open>page.locator(original).first()\<close>; a
  rejected \<open>isVisible\<close> counts as not visible, a rejected attribute read as null. The
  result is the pushed list after the stable \<open>sort\<close> by priority, with the queries sent.
  The parameter \<open>context\<close> is accepted and not used, as in the source.
\<close>

definition generateAlternativeStrategies ::
  "page \<Rightarrow> string \<Rightarrow> string option \<Rightarrow> LocatorStrategy list \<times> provider_call list" where
  "generateAlternativeStrategies pg original ctx =
     (let element = First (Locator original);
          visible = catch (isVisible pg element None) False
      in if visible
         then
           (let strategies = build_strategies (read_attributes pg element)
            in (sort_key s_priority strategies,
                IsVisible element None # attribute_calls element))
         else (sort_key s_priority [], [IsVisible element None]))"

subsection \<open>healLocator\<close>

text \<open>The \<open>switch\<close> on the strategy type: the query that a strategy is tried with.\<close>

fun strategy_locator :: "LocatorStrategy \<Rightarrow> handle" where
  "strategy_locator s =
     (case s_type s of
        TestId \<Rightarrow> GetByTestId (s_value s)
      | Text \<Rightarrow> GetByText (s_value s)
      | Role \<Rightarrow> GetByRole (s_value s)
      | Label \<Rightarrow> GetByLabel (s_value s)
      | Placeholder \<Rightarrow> GetByPlaceholder (s_value s)
      | CSS \<Rightarrow> Locator (s_value s)
      | XPath \<Rightarrow> Locator (s_value s))"

text \<open>
  One trial: the visibility check of the first element of the strategy's query, with the
  timeout of 2000 ms; a rejection counts as not visible.
\<close>

definition trial_visible :: "page \<Rightarrow> LocatorStrategy \<Rightarrow> bool" where
  "trial_visible pg s = catch (isVisible pg (First (strategy_locator s)) (Some 2000)) False"

definition trial_call :: "LocatorStrategy \<Rightarrow> provider_call" where
  "trial_call s = IsVisible (First (strategy_locator s)) (Some 2000)"

text \<open>
  The \<open>for\<close> loop over the strategies and the code after it. \<open>tried\<close> is the
  counter \<open>attempts\<close> of the source; the first visible strategy writes the cache and
  the history and returns, and when the list is exhausted the failed result is written
  to the history.
\<close>

fun trial_loop ::
  "page \<Rightarrow> string \<Rightarrow> LocatorStrategy list \<Rightarrow> nat \<Rightarrow> TestHealer \<Rightarrow>
   HealingResult \<times> TestHealer \<times> provider_call list" where
  "trial_loop pg original [] tried st =
     (let result = \<lparr>success = False, originalLocator = original,
                     healedLocator = None, strategy = None, attempts = tried\<rparr>
      in (result,
          st\<lparr>healingHistory := AList.update original result (healingHistory st)\<rparr>,
          []))"
| "trial_loop pg original (s # ss) tried st =
     (let tried = tried + 1
      in if trial_visible pg s
         then
           (let healed = s_value s;
                result = \<lparr>success = True, originalLocator = original,
                          healedLocator = Some healed,
                          strategy = Some (type_name (s_type s)), attempts = tried\<rparr>
            in (result,
                st\<lparr>locatorCache := AList.update original healed (locatorCache st),
                   healingHistory := AList.update original result (healingHistory st)\<rparr>,
                [trial_call s]))
         else
           (case trial_loop pg original ss tried st of
              (result, st', calls) \<Rightarrow> (result, st', trial_call s # calls)))"

definition healLocator ::
  "page \<Rightarrow> string \<Rightarrow> string option \<Rightarrow> TestHealer \<Rightarrow>
   HealingResult \<times> TestHealer \<times> provider_call list" where
  "healLocator pg original elementContext st =
     (case map_of (locatorCache st) original of
        Some cachedLocator \<Rightarrow>
          (\<lparr>success = True, originalLocator = original,
            healedLocator = Some cachedLocator, strategy = Some ''cached'', attempts = 0\<rparr>,
           st, [])
      | None \<Rightarrow>
          (case generateAlternativeStrategies pg original elementContext of
             (strategies, calls) \<Rightarrow>
               (case trial_loop pg original strategies 0 st of
                  (result, st', calls') \<Rightarrow> (result, st', calls @ calls'))))"

subsection \<open>findElement\<close>

text \<open>
  The optional argument \<open>options\<close> and its optional fields. \<open>timeout || 5000\<close> takes
  5000 for a missing timeout and for 0; \<open>enableHealing !== false\<close> is false only for
  an explicit \<open>false\<close>.
\<close>

record options =
  o_timeout :: "nat option"
  o_enableHealing :: "bool option"
  o_context :: "string option"

definition timeout_of :: "options option \<Rightarrow> nat" where
  "timeout_of opts =
     (case opts of
        None \<Rightarrow> 5000
      | Some opt \<Rightarrow> (case o_timeout opt of None \<Rightarrow> 5000 | Some t \<Rightarrow> if t = 0 then 5000 else t))"

definition enableHealing_of :: "options option \<Rightarrow> bool" where
  "enableHealing_of opts =
     (case opts of None \<Rightarrow> True | Some opt \<Rightarrow> o_enableHealing opt \<noteq> Some False)"

definition context_of :: "options option \<Rightarrow> string option" where
  "context_of opts = (case opts of None \<Rightarrow> None | Some opt \<Rightarrow> o_context opt)"

text \<open>
  The \<open>try\<close> block waits for the first element of \<open>page.locator(locator)\<close> and returns
  the locator; the \<open>catch\<close> block throws the caught error again when healing is
  disabled, and otherwise heals and returns \<open>page.locator\<close> of the healed value or
  throws the new error.
\<close>

definition could_not_heal :: "string \<Rightarrow> js_error" where
  "could_not_heal locator = Error (''Could not heal locator: '' @ locator)"

definition findElement ::
  "page \<Rightarrow> string \<Rightarrow> options option \<Rightarrow> TestHealer \<Rightarrow>
   (js_error + handle) \<times> TestHealer \<times> provider_call list" where
  "findElement pg locator opts st =
     (let timeout = timeout_of opts;
          enableHealing = enableHealing_of opts;
          element = Locator locator
      in case waitFor pg (First element) timeout of
           None \<Rightarrow> (Inr element, st, [WaitFor (First element) timeout])
         | Some error \<Rightarrow>
             if \<not> enableHealing
             then (Inl (Rethrown error), st, [WaitFor (First element) timeout])
             else
               (case healLocator pg locator (context_of opts) st of
                  (healingResult, st', calls) \<Rightarrow>
                    (if success healingResult \<and> truthy (healedLocator healingResult)
                     then (case healedLocator healingResult of
                             Some healed \<Rightarrow> Inr (Locator healed)
                           | None \<Rightarrow> Inl (could_not_heal locator))
                     else Inl (could_not_heal locator),
                     st', WaitFor (First element) timeout # calls)))"

subsection \<open>The ledger: clearCache, getHealingStats, exportHealedLocators\<close>

definition clearCache :: "TestHealer \<Rightarrow> TestHealer" where
  "clearCache st = st\<lparr>locatorCache := []\<rparr>"

text \<open>
  Numbers. The counts are integers far below \<open>2^53\<close>, which a number of the source
  holds exactly. The success rate is computed in double precision: a finite double is
  the rational it denotes, and an operation returns the exact result rounded to the
  nearest double, a tie going to the even significand. For \<open>2^e \<le> |q| < 2^(e+1)\<close> the
  doubles around \<open>q\<close> are the multiples of \<open>ulp q = 2^(e-52)\<close>. Only the normal range
  is modelled: the values that occur here are 0 or lie between \<open>2^(-53)\<close> and 101.
\<close>

definition round_half_even :: "rat \<Rightarrow> int" where
  "round_half_even x =
     (let f = \<lfloor>x\<rfloor>; d = x - of_int f
      in if d < 1 / 2 then f else if 1 / 2 < d then f + 1 else if even f then f else f + 1)"

definition ulp :: "rat \<Rightarrow> rat" where
  "ulp q =
     (case quotient_of \<bar>q\<bar> of
        (a, b) \<Rightarrow>
          (let top = 2 ^ nat (bitlen a) / 2 ^ nat (bitlen b)
           in if top \<le> \<bar>q\<bar> then top / 2 ^ 52 else top / 2 ^ 53))"

definition to_double :: "rat \<Rightarrow> rat" where
  "to_double q = (if q = 0 then 0 else of_int (round_half_even (q / ulp q)) * ulp q)"

definition double_div :: "rat \<Rightarrow> rat \<Rightarrow> rat" where
  "double_div x y = to_double (x / y)"

definition double_mul :: "rat \<Rightarrow> rat \<Rightarrow> rat" where
  "double_mul x y = to_double (x * y)"

text \<open>
  \<open>x.toFixed(digits)\<close> for \<open>0 \<le> x < 10^21\<close> prints the decimal \<open>n / 10^digits\<close> for the
  integer \<open>n\<close> with \<open>n / 10^digits\<close> nearest to the exact value of \<open>x\<close>, the larger \<open>n\<close>
  of two; the model gives the value of that decimal. \<open>parseFloat\<close> of a decimal is the
  nearest double.
\<close>

definition toFixed :: "rat \<Rightarrow> nat \<Rightarrow> rat" where
  "toFixed x digits = of_int \<lfloor>x * 10 ^ digits + 1 / 2\<rfloor> / 10 ^ digits"

definition parseFloat :: "rat \<Rightarrow> rat" where
  "parseFloat decimal = to_double decimal"

record healing_stats =
  totalAttempts :: int
  successful :: int
  failed :: int
  successRate :: rat
  cachedLocators :: int

definition getHealingStats :: "TestHealer \<Rightarrow> healing_stats" where
  "getHealingStats st =
     (let total = int (length (healingHistory st));
          n_successful = int (length (filter success (map snd (healingHistory st))));
          n_failed = total - n_successful;
          rate = (if total > 0
                  then double_mul (double_div (of_int n_successful) (of_int total)) 100
                  else 0)
      in \<lparr>totalAttempts = total, successful = n_successful, failed = n_failed,
          successRate = parseFloat (toFixed rate 2),
          cachedLocators = int (length (locatorCache st))\<rparr>)"

text \<open>The specification's N and S: the entries of the history and the successful ones.\<close>

definition ledger_entries :: "TestHealer \<Rightarrow> nat" where
  "ledger_entries st = length (healingHistory st)"

definition ledger_successes :: "TestHealer \<Rightarrow> nat" where
  "ledger_successes st = length (filter (\<lambda>entry. success (snd entry)) (healingHistory st))"

text \<open>
  The specification's \<open>round(x, digits)\<close>: the nearest decimal with that many digits, a
  tie going up.
\<close>

definition round_decimal :: "rat \<Rightarrow> nat \<Rightarrow> rat" where
  "round_decimal x digits = of_int \<lfloor>x * 10 ^ digits + 1 / 2\<rfloor> / 10 ^ digits"

text \<open>
  \<open>exportHealedLocators\<close>: the \<open>forEach\<close> over the history in insertion order, pushing
  a triple (original, healed, strategy) for an entry that is successful and has a
  truthy healed locator and a truthy strategy.
\<close>

fun export_loop ::
  "(string \<times> HealingResult) list \<Rightarrow> (string \<times> string \<times> string) list \<Rightarrow>
   (string \<times> string \<times> string) list" where
  "export_loop [] exports = exports"
| "export_loop ((original, result) # rest) exports =
     (if success result \<and> truthy (healedLocator result) \<and> truthy (strategy result)
      then (case (healedLocator result, strategy result) of
              (Some healed, Some used) \<Rightarrow> export_loop rest (exports @ [(original, healed, used)])
            | _ \<Rightarrow> export_loop rest exports)
      else export_loop rest exports)"

definition exportHealedLocators :: "TestHealer \<Rightarrow> (string \<times> string \<times> string) list" where
  "exportHealedLocators st = export_loop (healingHistory st) []"

subsection \<open>The strategy table of the specification\<close>















subsection \<open>The states of a healer\<close>

text \<open>
  The two maps are private: a healer starts with both empty, and only \<open>healLocator\<close>,
  \<open>findElement\<close> (which \<open>click\<close>, \<open>fill\<close>, \<open>getText\<close> and \<open>waitFor\<close> call and add nothing to)
  and \<open>clearCache\<close> change them. The page may be a different one at every call.
\<close>

inductive reachable :: "TestHealer \<Rightarrow> bool" where
  reachable_new: "reachable new_TestHealer"
| reachable_heal:
    "reachable st \<Longrightarrow> healLocator pg original ctx st = (r, st', calls) \<Longrightarrow> reachable st'"
| reachable_find:
    "reachable st \<Longrightarrow> findElement pg locator opts st = (r, st', calls) \<Longrightarrow> reachable st'"
| reachable_clear: "reachable st \<Longrightarrow> reachable (clearCache st)"

text \<open>
  What every state of a healer satisfies: the keys of each map are distinct, a cached
  value is a non-empty string, and a successful entry of the history has a non-empty
  healed locator and a non-empty strategy name.
\<close>

definition healed_ok :: "HealingResult \<Rightarrow> bool" where
  "healed_ok r = (success r \<longrightarrow> truthy (healedLocator r) \<and> truthy (strategy r))"

definition healer_inv :: "TestHealer \<Rightarrow> bool" where
  "healer_inv st =
     (distinct (map fst (locatorCache st)) \<and> distinct (map fst (healingHistory st)) \<and>
      (\<forall>entry \<in> set (locatorCache st). snd entry \<noteq> []) \<and>
      (\<forall>entry \<in> set (healingHistory st). healed_ok (snd entry)))"

section \<open>Example pages\<close>

text \<open>
  A button whose old locator \<open>.btn-old\<close> no longer resolves in time. The element has a
  test id, an id and two classes. On \<open>healing_page\<close> the query by test id finds it; on
  \<open>dead_page\<close> none of the alternatives does.
\<close>

definition demo_attribute :: "string \<Rightarrow> string option" where
  "demo_attribute name =
     (if name = ''data-testid'' then Some ''submit''
      else if name = ''id'' then Some ''real-id''
      else if name = ''class'' then Some ''btn primary''
      else None)"

definition demo_page :: "handle list \<Rightarrow> page" where
  "demo_page visible =
     \<lparr>isVisible = (\<lambda>h t. Inr (h \<in> set visible)),
      getAttribute = (\<lambda>h name. Inr (demo_attribute name)),
      textContent = (\<lambda>h. Inr None),
      waitFor = (\<lambda>h t. Some ''Timeout exceeded'')\<rparr>"

definition healing_page :: page where
  "healing_page = demo_page [First (Locator ''.btn-old''), First (GetByTestId ''submit'')]"

definition dead_page :: page where
  "dead_page = demo_page [First (Locator ''.btn-old'')]"





text \<open>The healer after one healing of \<open>.btn-old\<close> on \<open>healing_page\<close>.\<close>

definition healed_once :: TestHealer where
  "healed_once = fst (snd (healLocator healing_page ''.btn-old'' None new_TestHealer))"

text \<open>Then a second locator that finds nothing on \<open>dead_page\<close> is healed in vain.\<close>

definition healed_twice :: TestHealer where
  "healed_twice = fst (snd (healLocator dead_page ''.gone'' None healed_once))"

text \<open>Options that switch healing off.\<close>

definition no_healing :: options where
  "no_healing = \<lparr>o_timeout = None, o_enableHealing = Some False, o_context = None\<rparr>"

text \<open>
  A healer with 160 locators in its history, 23 of them healed, after \<open>clearCache\<close>.
  It is reached by 160 calls of \<open>healLocator\<close>: the first 23 on \<open>id_page\<close>, where the
  element has an id and everything is visible, the others on \<open>blank_page\<close>, where nothing
  is visible. \<open>healer_after n\<close> is the healer after the first \<open>n\<close> calls.
\<close>

definition locator_name :: "nat \<Rightarrow> string" where
  "locator_name i = replicate (Suc i) CHR ''x''"

definition ledger_entry :: "nat \<Rightarrow> string \<times> HealingResult" where
  "ledger_entry i =
     (locator_name i,
      if i < 23
      then \<lparr>success = True, originalLocator = locator_name i,
            healedLocator = Some ''#real-id'', strategy = Some ''css'', attempts = 1\<rparr>
      else \<lparr>success = False, originalLocator = locator_name i,
            healedLocator = None, strategy = None, attempts = 0\<rparr>)"

definition id_page :: page where
  "id_page =
     \<lparr>isVisible = (\<lambda>h t. Inr True),
      getAttribute = (\<lambda>h name. Inr (if name = ''id'' then Some ''real-id'' else None)),
      textContent = (\<lambda>h. Inr None),
      waitFor = (\<lambda>h t. Some ''Timeout exceeded'')\<rparr>"

definition blank_page :: page where
  "blank_page =
     \<lparr>isVisible = (\<lambda>h t. Inr False),
      getAttribute = (\<lambda>h name. Inr None),
      textContent = (\<lambda>h. Inr None),
      waitFor = (\<lambda>h t. Some ''Timeout exceeded'')\<rparr>"

definition healer_after :: "nat \<Rightarrow> TestHealer" where
  "healer_after n =
     \<lparr>healingHistory = map ledger_entry [0..<n],
      locatorCache = map (\<lambda>i. (locator_name i, ''#real-id'')) [0..<min n 23]\<rparr>"

definition healer_160 :: TestHealer where
  "healer_160 = clearCache (healer_after 160)"

section \<open>Properties\<close>

subsection \<open>The examples, evaluated\<close>

lemma demo_strategies:
  "generateAlternativeStrategies (demo_page visible) ''.btn-old'' ctx =
     (if First (Locator ''.btn-old'') \<in> set visible
      then ([\<lparr>s_type = TestId, s_value = ''submit'', s_priority = 1\<rparr>,
             \<lparr>s_type = CSS, s_value = ''#real-id'', s_priority = 2\<rparr>,
             \<lparr>s_type = CSS, s_value = ''.btn.primary'', s_priority = 8\<rparr>],
            IsVisible (First (Locator ''.btn-old'')) None
              # attribute_calls (First (Locator ''.btn-old'')))
      else ([], [IsVisible (First (Locator ''.btn-old'')) None]))"
  by (simp add: generateAlternativeStrategies_def demo_page_def read_attributes_def
      build_strategies_def push_if_def class_strategy_def demo_attribute_def Let_def)

lemma healed_once_eq:
  "healed_once =
     \<lparr>healingHistory =
        [(''.btn-old'', \<lparr>success = True, originalLocator = ''.btn-old'',
            healedLocator = Some ''submit'', strategy = Some ''testId'', attempts = 1\<rparr>)],
      locatorCache = [(''.btn-old'', ''submit'')]\<rparr>"
  by (simp add: healed_once_def healLocator_def new_TestHealer_def healing_page_def
      demo_strategies) (simp add: demo_page_def Let_def trial_visible_def)

lemma reachable_healed_once: "reachable healed_once"
  unfolding healed_once_def
  by (rule reachable_heal [OF reachable_new, of healing_page "''.btn-old''" None
        "fst (healLocator healing_page ''.btn-old'' None new_TestHealer)" _
        "snd (snd (healLocator healing_page ''.btn-old'' None new_TestHealer))"]) simp

lemma healed_twice_eq:
  "healed_twice =
     \<lparr>healingHistory =
        [(''.btn-old'', \<lparr>success = True, originalLocator = ''.btn-old'',
            healedLocator = Some ''submit'', strategy = Some ''testId'', attempts = 1\<rparr>),
         (''.gone'', \<lparr>success = False, originalLocator = ''.gone'',
            healedLocator = None, strategy = None, attempts = 0\<rparr>)],
      locatorCache = [(''.btn-old'', ''submit'')]\<rparr>"
  by (simp add: healed_twice_def healed_once_eq healLocator_def dead_page_def
      generateAlternativeStrategies_def demo_page_def Let_def)

lemma reachable_healed_twice: "reachable healed_twice"
  unfolding healed_twice_def
  by (rule reachable_heal [OF reachable_healed_once, of dead_page "''.gone''" None
        "fst (healLocator dead_page ''.gone'' None healed_once)" _
        "snd (snd (healLocator dead_page ''.gone'' None healed_once))"]) simp

lemma dead_page_heal:
  "healLocator dead_page ''.btn-old'' None new_TestHealer =
     (\<lparr>success = False, originalLocator = ''.btn-old'', healedLocator = None,
       strategy = None, attempts = 3\<rparr>,
      \<lparr>healingHistory =
         [(''.btn-old'', \<lparr>success = False, originalLocator = ''.btn-old'',
            healedLocator = None, strategy = None, attempts = 3\<rparr>)],
       locatorCache = []\<rparr>,
      [IsVisible (First (Locator ''.btn-old'')) None] @
      attribute_calls (First (Locator ''.btn-old'')) @
      [IsVisible (First (GetByTestId ''submit'')) (Some 2000),
       IsVisible (First (Locator ''#real-id'')) (Some 2000),
       IsVisible (First (Locator ''.btn.primary'')) (Some 2000)])"
  by (simp add: healLocator_def new_TestHealer_def dead_page_def demo_strategies)
    (simp add: demo_page_def Let_def trial_visible_def trial_call_def)

lemma healing_page_heal:
  "healLocator healing_page ''.btn-old'' None new_TestHealer =
     (\<lparr>success = True, originalLocator = ''.btn-old'', healedLocator = Some ''submit'',
       strategy = Some ''testId'', attempts = 1\<rparr>,
      healed_once,
      [IsVisible (First (Locator ''.btn-old'')) None] @
      attribute_calls (First (Locator ''.btn-old'')) @
      [IsVisible (First (GetByTestId ''submit'')) (Some 2000)])"
  unfolding healed_once_eq
  by (simp add: healLocator_def new_TestHealer_def healing_page_def demo_strategies)
    (simp add: demo_page_def Let_def trial_visible_def trial_call_def)

subsection \<open>Strategy synthesis: sortedness and the table\<close>










subsection \<open>The code against the table of the specification\<close>





















subsection \<open>The trial loop in closed form\<close>

lemma trial_loop_eq:
  "trial_loop pg original ss tried st =
     (case List.find (trial_visible pg) ss of
        None \<Rightarrow>
          (let result = \<lparr>success = False, originalLocator = original, healedLocator = None,
                          strategy = None, attempts = tried + length ss\<rparr>
           in (result,
               st\<lparr>healingHistory := AList.update original result (healingHistory st)\<rparr>,
               map trial_call ss))
      | Some s \<Rightarrow>
          (let skipped = takeWhile (\<lambda>s. \<not> trial_visible pg s) ss;
               result = \<lparr>success = True, originalLocator = original,
                         healedLocator = Some (s_value s),
                         strategy = Some (type_name (s_type s)),
                         attempts = tried + length skipped + 1\<rparr>
           in (result,
               st\<lparr>locatorCache := AList.update original (s_value s) (locatorCache st),
                  healingHistory := AList.update original result (healingHistory st)\<rparr>,
               map trial_call skipped @ [trial_call s])))"
proof (induction ss arbitrary: tried)
  case Nil
  show ?case by simp
next
  case (Cons s ss)
  show ?case
  proof (cases "trial_visible pg s")
    case True
    then show ?thesis by (simp add: Let_def)
  next
    case False
    then show ?thesis
      by (simp add: Cons.IH Let_def split: option.splits)
  qed
qed

lemma trial_loop_history:
  assumes "trial_loop pg original ss tried st = (r, st', calls)"
  shows "healingHistory st' = AList.update original r (healingHistory st)"
  using assms by (auto simp: trial_loop_eq Let_def split: option.splits)

subsection \<open>The invariant of the healer\<close>

lemma push_if_set: "s \<in> set (push_if a mk) \<Longrightarrow> \<exists>v. v \<noteq> [] \<and> s = mk v"
  by (auto simp: push_if_def split: option.splits if_splits)

lemma build_strategies_value: "s \<in> set (build_strategies a) \<Longrightarrow> s_value s \<noteq> []"
  by (auto simp: build_strategies_def class_strategy_def Let_def
      dest!: push_if_set split: option.splits if_splits)

lemma generateAlternativeStrategies_value:
  "s \<in> set (fst (generateAlternativeStrategies pg original ctx)) \<Longrightarrow> s_value s \<noteq> []"
  by (auto simp: generateAlternativeStrategies_def Let_def build_strategies_value
      split: if_splits)

lemma type_name_nonempty: "type_name k \<noteq> []"
  by (cases k) simp_all

lemma update_values:
  "entry \<in> set (AList.update k v al) \<Longrightarrow> snd entry = v \<or> entry \<in> set al"
  by (induction al) (auto split: if_splits)


lemma healLocator_miss:
  assumes "map_of (locatorCache st) original = None"
  shows "healLocator pg original ctx st =
           (case trial_loop pg original (fst (generateAlternativeStrategies pg original ctx)) 0 st of
              (result, st', calls') \<Rightarrow>
                (result, st', snd (generateAlternativeStrategies pg original ctx) @ calls'))"
  using assms by (simp add: healLocator_def split: prod.splits)

lemma trial_loop_inv:
  assumes inv: "healer_inv st"
    and vals: "\<forall>s \<in> set ss. s_value s \<noteq> []"
    and run: "trial_loop pg original ss tried st = (r, st', calls)"
  shows "healer_inv st' \<and> healed_ok r"
proof (cases "List.find (trial_visible pg) ss")
  case None
  with run have r: "r = \<lparr>success = False, originalLocator = original, healedLocator = None,
        strategy = None, attempts = tried + length ss\<rparr>"
    and st': "st' = st\<lparr>healingHistory := AList.update original r (healingHistory st)\<rparr>"
    by (auto simp: trial_loop_eq Let_def)
  have ok: "healed_ok r" by (simp add: r healed_ok_def)
  have "healer_inv st'"
    using inv ok
    by (auto simp: healer_inv_def st' distinct_update dest!: update_values)
  with ok show ?thesis by simp
next
  case (Some s)
  then have "s \<in> set ss" by (auto simp: find_Some_iff)
  with vals have v: "s_value s \<noteq> []" by simp
  from Some run have rs: "success r" "healedLocator r = Some (s_value s)"
      "strategy r = Some (type_name (s_type s))"
    and st': "st' = st\<lparr>locatorCache := AList.update original (s_value s) (locatorCache st),
        healingHistory := AList.update original r (healingHistory st)\<rparr>"
    by (auto simp: trial_loop_eq Let_def)
  have ok: "healed_ok r" by (simp add: rs healed_ok_def v type_name_nonempty)
  have "healer_inv st'"
    using inv ok v
    by (auto simp: healer_inv_def st' distinct_update dest!: update_values)
  with ok show ?thesis by simp
qed

lemma healLocator_inv:
  assumes inv: "healer_inv st" and run: "healLocator pg original ctx st = (r, st', calls)"
  shows "healer_inv st' \<and> healed_ok r"
proof (cases "map_of (locatorCache st) original")
  case None
  obtain r0 st0 c0 where t: "trial_loop pg original
      (fst (generateAlternativeStrategies pg original ctx)) 0 st = (r0, st0, c0)"
    by (metis prod_cases3)
  with None run have "r0 = r" "st0 = st'" by (simp_all add: healLocator_miss)
  with trial_loop_inv [OF inv _ t] show ?thesis
    by (simp add: generateAlternativeStrategies_value)
next
  case (Some cached)
  then have "(original, cached) \<in> set (locatorCache st)" by (rule map_of_SomeD)
  with inv have "cached \<noteq> []" by (auto simp: healer_inv_def)
  with Some run inv show ?thesis
    by (auto simp: healLocator_def healed_ok_def)
qed

lemma findElement_state:
  assumes "findElement pg locator opts st = (res, st', calls)"
  shows "st' = st \<or> st' = fst (snd (healLocator pg locator (context_of opts) st))"
  using assms
  by (auto simp: findElement_def Let_def split: option.splits if_splits prod.splits)

lemma findElement_inv:
  assumes inv: "healer_inv st" and run: "findElement pg locator opts st = (res, st', calls)"
  shows "healer_inv st'"
proof -
  obtain r st1 c1 where h: "healLocator pg locator (context_of opts) st = (r, st1, c1)"
    by (metis prod_cases3)
  from healLocator_inv [OF inv h] have "healer_inv st1" by simp
  with findElement_state [OF run] h inv show ?thesis by auto
qed

lemma reachable_inv: "reachable st \<Longrightarrow> healer_inv st"
proof (induction rule: reachable.induct)
  case reachable_new
  show ?case by (simp add: healer_inv_def new_TestHealer_def)
next
  case (reachable_heal st pg original ctx r st' calls)
  then show ?case using healLocator_inv by blast
next
  case (reachable_find st pg locator opts r st' calls)
  then show ?case using findElement_inv by blast
next
  case (reachable_clear st)
  then show ?case by (simp add: healer_inv_def clearCache_def)
qed

subsection \<open>The healer with 160 locators is reached\<close>

lemma update_new: "k \<notin> fst ` set al \<Longrightarrow> AList.update k v al = al @ [(k, v)]"
  by (induction al) auto

lemma locator_name_inj: "locator_name i = locator_name j \<longleftrightarrow> i = j"
proof
  assume "locator_name i = locator_name j"
  then have "length (locator_name i) = length (locator_name j)" by simp
  then show "i = j" by (simp add: locator_name_def)
qed simp

lemma locator_name_new: "n \<le> i \<Longrightarrow> locator_name i \<notin> fst ` set (map (\<lambda>j. (locator_name j, v j)) [0..<n])"
  by (auto simp: locator_name_inj)

lemma ledger_entry_fst: "fst (ledger_entry i) = locator_name i"
  by (simp add: ledger_entry_def)

lemma healer_after_step:
  "\<exists>calls.
     healLocator (if i < 23 then id_page else blank_page) (locator_name i) None (healer_after i) =
       (snd (ledger_entry i), healer_after (Suc i), calls)"
proof -
  have cache_new: "locator_name i \<notin>
      fst ` set (map (\<lambda>j. (locator_name j, ''#real-id'')) [0..<min i 23])"
    by (rule locator_name_new) simp
  then have miss: "map_of (locatorCache (healer_after i)) (locator_name i) = None"
    by (simp add: healer_after_def map_of_eq_None_iff)
  have "locator_name i \<notin> fst ` set (map ledger_entry [0..<i])"
    by (auto simp: ledger_entry_fst locator_name_inj)
  note hist_new = update_new [OF this]
  show ?thesis
  proof (cases "i < 23")
    case True
    then have m: "min (Suc i) 23 = Suc i" "min i 23 = i" by simp_all
    have gen: "generateAlternativeStrategies id_page (locator_name i) None =
        ([\<lparr>s_type = CSS, s_value = ''#real-id'', s_priority = 2\<rparr>],
         IsVisible (First (Locator (locator_name i))) None
           # attribute_calls (First (Locator (locator_name i))))"
      by (simp add: generateAlternativeStrategies_def id_page_def read_attributes_def
          build_strategies_def push_if_def class_strategy_def Let_def)
    have vis: "trial_visible id_page \<lparr>s_type = CSS, s_value = ''#real-id'', s_priority = 2\<rparr>"
      by (simp add: trial_visible_def id_page_def)
    from True miss cache_new show ?thesis
      by (simp add: healLocator_miss gen vis Let_def hist_new update_new m
          healer_after_def ledger_entry_def)
  next
    case False
    then have m: "min (Suc i) 23 = 23" "min i 23 = 23" by simp_all
    have gen: "generateAlternativeStrategies blank_page (locator_name i) None =
        ([], [IsVisible (First (Locator (locator_name i))) None])"
      by (simp add: generateAlternativeStrategies_def blank_page_def Let_def)
    from False miss show ?thesis
      by (simp add: healLocator_miss gen Let_def hist_new m healer_after_def ledger_entry_def)
  qed
qed

lemma reachable_healer_after: "reachable (healer_after n)"
proof (induction n)
  case 0
  have "healer_after 0 = new_TestHealer" by (simp add: healer_after_def new_TestHealer_def)
  then show ?case by (simp add: reachable_new)
next
  case (Suc n)
  from healer_after_step [of n] obtain calls where
    "healLocator (if n < 23 then id_page else blank_page) (locator_name n) None (healer_after n) =
       (snd (ledger_entry n), healer_after (Suc n), calls)" ..
  with Suc show ?case by (rule reachable_heal)
qed

lemma reachable_healer_160: "reachable healer_160"
  unfolding healer_160_def by (rule reachable_clear) (rule reachable_healer_after)

subsection \<open>findElement by cases of the direct attempt\<close>

lemma findElement_direct_failure:
  assumes "waitFor pg (First (Locator locator)) (timeout_of opts) = Some e"
    and "healLocator pg locator (context_of opts) st = (r, st1, calls1)"
  shows "findElement pg locator opts st =
     (if \<not> enableHealing_of opts
      then (Inl (Rethrown e), st, [WaitFor (First (Locator locator)) (timeout_of opts)])
      else (if success r \<and> truthy (healedLocator r)
            then (case healedLocator r of Some healed \<Rightarrow> Inr (Locator healed)
                  | None \<Rightarrow> Inl (could_not_heal locator))
            else Inl (could_not_heal locator),
            st1, WaitFor (First (Locator locator)) (timeout_of opts) # calls1))"
  using assms by (simp add: findElement_def Let_def)

lemma findElement_direct_success:
  assumes "waitFor pg (First (Locator locator)) (timeout_of opts) = None"
  shows "findElement pg locator opts st =
     (Inr (Locator locator), st, [WaitFor (First (Locator locator)) (timeout_of opts)])"
  using assms by (simp add: findElement_def Let_def)

subsection \<open>The export loop\<close>

lemma export_loop_acc: "export_loop al acc = acc @ export_loop al []"
proof (induction al arbitrary: acc)
  case Nil
  show ?case by simp
next
  case (Cons entry al)
  obtain original r where entry: "entry = (original, r)" by (cases entry)
  show ?case
  proof (cases "success r \<and> truthy (healedLocator r) \<and> truthy (strategy r)")
    case True
    then obtain healed used where "healedLocator r = Some healed" "strategy r = Some used"
      by (cases "healedLocator r"; cases "strategy r") auto
    with True show ?thesis
      using Cons.IH [of "acc @ [(original, healed, used)]"]
        Cons.IH [of "[(original, healed, used)]"]
      by (simp add: entry)
  next
    case False
    then have "export_loop (entry # al) acc = export_loop al acc"
      and "export_loop (entry # al) [] = export_loop al []"
      by (auto simp: entry)
    with Cons.IH [of acc] show ?thesis by simp
  qed
qed

lemma export_loop_complete:
  assumes "\<forall>entry \<in> set al. healed_ok (snd entry)"
  shows "map (\<lambda>(original, healed, used). (original, Some healed, Some used))
           (export_loop al []) =
         map (\<lambda>(original, r). (original, healedLocator r, strategy r))
           (filter (\<lambda>(original, r). success r) al)"
  using assms
proof (induction al)
  case Nil
  show ?case by simp
next
  case (Cons entry al)
  obtain original r where entry: "entry = (original, r)" by (cases entry)
  from Cons.prems have ok: "healed_ok r" and rest: "\<forall>entry \<in> set al. healed_ok (snd entry)"
    by (simp_all add: entry)
  show ?case
  proof (cases "success r")
    case True
    with ok obtain healed used where hs: "healedLocator r = Some healed" "healed \<noteq> []"
        "strategy r = Some used" "used \<noteq> []"
      by (cases "healedLocator r"; cases "strategy r") (auto simp: healed_ok_def)
    have "export_loop (entry # al) [] = (original, healed, used) # export_loop al []"
      using export_loop_acc [of al "[(original, healed, used)]"]
      by (simp add: entry True hs)
    with Cons.IH [OF rest] show ?thesis by (simp add: entry True hs)
  next
    case False
    with Cons.IH [OF rest] show ?thesis by (simp add: entry)
  qed
qed

subsection \<open>The example button, through findElement\<close>


subsection \<open>Rounding to a double\<close>

lemma round_half_even_error: "\<bar>of_int (round_half_even x) - x\<bar> \<le> 1 / 2"
proof -
  have "of_int \<lfloor>x\<rfloor> \<le> x" "x < of_int \<lfloor>x\<rfloor> + 1" by linarith+
  then show ?thesis
    by (auto simp: round_half_even_def Let_def)
qed

lemma quotient_bounds:
  assumes "0 < q" and quot: "quotient_of q = (a, b)"
  shows "(2 ^ nat (bitlen a) / 2 ^ nat (bitlen b)) / 2 < q"
    and "q < 2 * (2 ^ nat (bitlen a) / 2 ^ nat (bitlen b))"
proof -
  from quot have b: "0 < b" by (rule quotient_of_denom_pos)
  from quot have q: "q = of_int a / of_int b" by (rule quotient_of_div)
  with assms b have a: "0 < a" by (simp add: zero_less_divide_iff)
  let ?ka = "nat (bitlen a)" and ?kb = "nat (bitlen b)"
  from a have "1 \<le> bitlen a" by (simp add: bitlen_alt_def)
  then have ka: "nat (bitlen a - 1) = ?ka - 1" "?ka = Suc (?ka - 1)" by simp_all
  from b have "1 \<le> bitlen b" by (simp add: bitlen_alt_def)
  then have kb: "nat (bitlen b - 1) = ?kb - 1" "?kb = Suc (?kb - 1)" by simp_all
  from bitlen_bounds [OF a] have "2 ^ (?ka - 1) \<le> a" "a < 2 ^ ?ka" by (simp_all add: ka(1))
  then have A: "(2::rat) ^ (?ka - 1) \<le> of_int a" "of_int a < (2::rat) ^ ?ka"
    by (metis of_int_le_iff of_int_numeral of_int_power, metis of_int_less_iff of_int_numeral of_int_power)
  from bitlen_bounds [OF b] have "2 ^ (?kb - 1) \<le> b" "b < 2 ^ ?kb" by (simp_all add: kb(1))
  then have B: "(2::rat) ^ (?kb - 1) \<le> of_int b" "of_int b < (2::rat) ^ ?kb"
    by (metis of_int_le_iff of_int_numeral of_int_power, metis of_int_less_iff of_int_numeral of_int_power)
  have pa: "(2::rat) ^ ?ka = 2 * 2 ^ (?ka - 1)" using ka(2) by (metis power_Suc)
  have pb: "(2::rat) ^ ?kb = 2 * 2 ^ (?kb - 1)" using kb(2) by (metis power_Suc)
  have b': "(0::rat) < of_int b" using b by simp
  have "(2 ^ ?ka / 2 ^ ?kb) / 2 = (2::rat) ^ (?ka - 1) / 2 ^ ?kb" by (simp add: pa)
  also have "\<dots> < 2 ^ (?ka - 1) / of_int b"
    using B(2) b' by (simp add: divide_strict_left_mono)
  also have "\<dots> \<le> of_int a / of_int b"
    using A(1) b' by (simp add: divide_right_mono)
  finally show "(2 ^ ?ka / 2 ^ ?kb) / 2 < q" by (simp add: q)
  have "q < 2 ^ ?ka / of_int b"
    unfolding q using A(2) b' by (simp add: divide_strict_right_mono)
  also have "\<dots> \<le> 2 ^ ?ka / 2 ^ (?kb - 1)"
    using B(1) by (intro frac_le) simp_all
  also have "\<dots> = 2 * (2 ^ ?ka / 2 ^ ?kb)" by (simp add: pb)
  finally show "q < 2 * (2 ^ ?ka / 2 ^ ?kb)" .
qed

lemma ulp_bounds:
  assumes "q \<noteq> 0"
  shows "2 ^ 52 * ulp q \<le> \<bar>q\<bar>" and "\<bar>q\<bar> < 2 ^ 53 * ulp q"
proof -
  obtain a b where quot: "quotient_of \<bar>q\<bar> = (a, b)" by (cases "quotient_of \<bar>q\<bar>")
  from assms have pos: "0 < \<bar>q\<bar>" by simp
  note bounds = quotient_bounds [OF pos quot]
  show "2 ^ 52 * ulp q \<le> \<bar>q\<bar>"
    using bounds by (simp add: ulp_def quot Let_def)
  show "\<bar>q\<bar> < 2 ^ 53 * ulp q"
    using bounds by (simp add: ulp_def quot Let_def)
qed

lemma ulp_pos: "q \<noteq> 0 \<Longrightarrow> 0 < ulp q"
  using ulp_bounds(2) [of q] by (simp add: zero_less_mult_iff)

lemma to_double_error: "\<bar>to_double q - q\<bar> \<le> \<bar>q\<bar> / 2 ^ 53"
proof (cases "q = 0")
  case True
  then show ?thesis by (simp add: to_double_def)
next
  case False
  let ?u = "ulp q"
  from False have u: "0 < ?u" by (rule ulp_pos)
  have "to_double q - q = (of_int (round_half_even (q / ?u)) - q / ?u) * ?u"
    using False u by (simp add: to_double_def algebra_simps)
  then have "\<bar>to_double q - q\<bar> = \<bar>of_int (round_half_even (q / ?u)) - q / ?u\<bar> * ?u"
    using u by (simp add: abs_mult)
  also have "\<dots> \<le> (1 / 2) * ?u"
    using round_half_even_error [of "q / ?u"] u by (simp add: mult_right_mono)
  also have "\<dots> \<le> \<bar>q\<bar> / 2 ^ 53"
    using ulp_bounds(1) [OF False] by simp
  finally show ?thesis .
qed

subsection \<open>The error of the success rate\<close>

lemma toFixed_error: "\<bar>toFixed x 2 - x\<bar> \<le> 1 / 200"
proof -
  define n :: rat where "n = of_int \<lfloor>x * 100 + 1 / 2\<rfloor>"
  have "n \<le> x * 100 + 1 / 2" "x * 100 + 1 / 2 < n + 1"
    unfolding n_def by linarith+
  moreover have "toFixed x 2 = n / 100" by (simp add: toFixed_def n_def)
  ultimately show ?thesis by linarith
qed

lemma double_product_error:
  fixes q :: rat
  assumes "0 \<le> q" "q \<le> 1"
  shows "\<bar>double_mul (to_double q) 100 - 100 * q\<bar> \<le> 300 / 2 ^ 53"
proof -
  let ?x1 = "to_double q"
  let ?x2 = "to_double (?x1 * 100)"
  define u :: rat where "u = 1 / 2 ^ 53"
  have u: "0 \<le> u" "u \<le> 1" by (simp_all add: u_def)
  have "\<bar>?x1 - q\<bar> \<le> \<bar>q\<bar> * u"
    using to_double_error [of q] by (simp add: u_def)
  also have "\<bar>q\<bar> * u \<le> 1 * u" using assms u(1) by (intro mult_right_mono) simp_all
  finally have e1: "\<bar>?x1 - q\<bar> \<le> u" by simp
  with assms u have x1: "\<bar>?x1 * 100\<bar> \<le> 200" by linarith
  have "\<bar>?x2 - ?x1 * 100\<bar> \<le> \<bar>?x1 * 100\<bar> * u"
    using to_double_error [of "?x1 * 100"] by (simp add: u_def)
  also have "\<dots> \<le> 200 * u" using x1 u(1) by (intro mult_right_mono) simp_all
  finally have e2: "\<bar>?x2 - ?x1 * 100\<bar> \<le> 200 * u" .
  from e1 e2 have "\<bar>?x2 - 100 * q\<bar> \<le> 300 * u" by linarith
  then show ?thesis by (simp add: double_mul_def u_def)
qed

lemma success_rate_error:
  fixes s t :: int
  assumes "0 \<le> s" "s \<le> t" "0 < t"
  defines "q \<equiv> (of_int s / of_int t :: rat)"
  defines "d \<equiv> toFixed (double_mul (double_div (of_int s) (of_int t)) 100) 2"
  shows "\<bar>d - 100 * q\<bar> \<le> 1 / 200 + 1 / 10 ^ 13"
proof -
  have q: "0 \<le> q" "q \<le> 1" using assms by (simp_all add: q_def)
  have e3: "\<bar>d - double_mul (to_double q) 100\<bar> \<le> 1 / 200"
    unfolding d_def double_div_def q_def [symmetric] by (rule toFixed_error)
  have "(300 / 2 ^ 53 :: rat) \<le> 1 / 10 ^ 13" by simp
  with double_product_error [OF q] e3 show ?thesis by linarith
qed

lemma success_rate_no_tie:
  fixes s t :: int
  assumes s: "0 \<le> s" "s \<le> t" and t: "0 < t" "t \<le> 10 ^ 10"
    and no_tie: "\<forall>k::int. 20000 * s \<noteq> (2 * k + 1) * t"
  shows "toFixed (double_mul (double_div (of_int s) (of_int t)) 100) 2 =
           round_decimal (100 * of_int s / of_int t) 2"
proof -
  define q :: rat where "q = of_int s / of_int t"
  define y :: rat where "y = 100 * (100 * q)"
  define x2 where "x2 = double_mul (to_double q) 100"
  define m where "m = \<lfloor>y + 1 / 2\<rfloor>"
  have T: "(0::rat) < of_int t" using t by simp
  have q: "0 \<le> q" "q \<le> 1" using s t by (simp_all add: q_def)
  have yt: "y * of_int t = 10000 * of_int s" using T by (simp add: y_def q_def)
  define eps :: rat where "eps = 300 / 2 ^ 53"
  define delta :: rat where "delta = 1 / (2 * of_int t)"
  from double_product_error [OF q] have "\<bar>x2 - 100 * q\<bar> \<le> eps"
    unfolding x2_def eps_def .
  then have near: "\<bar>100 * x2 - y\<bar> \<le> 100 * eps" unfolding y_def by linarith
  have lo: "of_int m \<le> y + 1 / 2" and hi: "y + 1 / 2 < of_int m + 1"
    unfolding m_def by linarith+
  have "of_int m * (2 * of_int t) \<le> (y + 1 / 2) * (2 * of_int t)"
    using lo T by (intro mult_right_mono) simp_all
  also have "\<dots> = 20000 * of_int s + of_int t" using yt by (simp add: algebra_simps)
  finally have "(of_int ((2 * m - 1) * t) :: rat) \<le> of_int (20000 * s)"
    by (simp add: algebra_simps)
  then have "(2 * m - 1) * t \<le> 20000 * s" by (simp only: of_int_le_iff)
  with no_tie [rule_format, of "m - 1"] have "(2 * m - 1) * t + 1 \<le> 20000 * s" by simp
  then have "(of_int ((2 * m - 1) * t + 1) :: rat) \<le> of_int (20000 * s)"
    by (simp only: of_int_le_iff)
  then have "(2 * of_int m - 1) * of_int t + 1 \<le> 2 * (y * of_int t)"
    by (simp add: yt algebra_simps)
  then have below: "of_int m - 1 / 2 + delta \<le> y"
    using T by (simp add: delta_def field_simps)
  have "(y + 1 / 2) * (2 * of_int t) < (of_int m + 1) * (2 * of_int t)"
    using hi T by (intro mult_strict_right_mono) simp_all
  then have "(of_int (20000 * s) :: rat) < of_int ((2 * m + 1) * t)"
    using yt by (simp add: algebra_simps)
  then have "20000 * s < (2 * m + 1) * t" by (simp only: of_int_less_iff)
  then have "20000 * s + 1 \<le> (2 * m + 1) * t" by simp
  then have "(of_int (20000 * s + 1) :: rat) \<le> of_int ((2 * m + 1) * t)"
    by (simp only: of_int_le_iff)
  then have "2 * (y * of_int t) + 1 \<le> (2 * of_int m + 1) * of_int t"
    by (simp add: yt algebra_simps)
  then have above: "y + delta \<le> of_int m + 1 / 2"
    using T by (simp add: delta_def field_simps)
  have "(of_int t :: rat) \<le> 10 ^ 10"
    using t(2) by (metis of_int_le_iff of_int_numeral of_int_power)
  then have d1: "1 / (2 * 10 ^ 10) \<le> delta"
    unfolding delta_def using T by (intro divide_left_mono) simp_all
  have d2: "100 * eps < 1 / (2 * 10 ^ 10)" by (simp add: eps_def)
  from d2 d1 have gap: "100 * eps < delta" by (rule less_le_trans)
  from below above gap near
  have "of_int m \<le> 100 * x2 + 1 / 2" "100 * x2 + 1 / 2 < of_int m + 1"
    by linarith+
  then have "\<lfloor>100 * x2 + 1 / 2\<rfloor> = m" by (simp add: floor_unique)
  then show ?thesis
    by (simp add: toFixed_def round_decimal_def x2_def double_div_def q_def m_def y_def
        mult.commute)
qed

subsection \<open>Cache hits\<close>

text \<open>
  C3. When the original locator has a cache entry, \<open>healLocator\<close> returns a successful
  result with the cached value as healed locator, the strategy \<open>cached\<close> and zero
  attempts; it sends no query to the page (neither the synthesis nor the trial loop
  runs) and leaves the healer as it was.
\<close>

theorem healLocator_cache_hit:
  assumes "map_of (locatorCache st) original = Some cached"
  shows "healLocator pg original ctx st =
           (\<lparr>success = True, originalLocator = original, healedLocator = Some cached,
             strategy = Some ''cached'', attempts = 0\<rparr>, st, [])"
  using assms by (simp add: healLocator_def)

theorem healLocator_cache_hit_witness:
  "map_of (locatorCache healed_once) ''.btn-old'' = Some ''submit'' \<and>
   healLocator dead_page ''.btn-old'' None healed_once =
     (\<lparr>success = True, originalLocator = ''.btn-old'', healedLocator = Some ''submit'',
       strategy = Some ''cached'', attempts = 0\<rparr>, healed_once, [])"
proof -
  have hit: "map_of (locatorCache healed_once) ''.btn-old'' = Some ''submit''"
    by (simp add: healed_once_eq)
  show ?thesis
    using hit healLocator_cache_hit [OF hit, of dead_page None] by simp
qed

subsection \<open>Strategy synthesis\<close>




subsection \<open>The ledger after a call of healLocator\<close>

text \<open>
  C1, amended. A call of \<open>healLocator\<close> that is not served from the cache leaves in the
  history, under the original locator, exactly the result it returns: the entry is
  written with \<open>set\<close>, so an earlier entry for the locator is overwritten in place and
  the entries of other locators are untouched. A call served from the cache returns
  without writing: it leaves the healer, and so the history, as it was.
\<close>

theorem healLocator_ledger:
  assumes run: "healLocator pg original ctx st = (r, st', calls)"
  shows "(map_of (locatorCache st) original = None \<longrightarrow>
            healingHistory st' = AList.update original r (healingHistory st) \<and>
            map_of (healingHistory st') original = Some r \<and>
            (\<forall>k. k \<noteq> original \<longrightarrow>
               map_of (healingHistory st') k = map_of (healingHistory st) k)) \<and>
         (map_of (locatorCache st) original \<noteq> None \<longrightarrow> st' = st)"
proof (cases "map_of (locatorCache st) original")
  case None
  obtain r0 st0 c0 where t: "trial_loop pg original
      (fst (generateAlternativeStrategies pg original ctx)) 0 st = (r0, st0, c0)"
    by (metis prod_cases3)
  with None run have "r0 = r" "st0 = st'" by (simp_all add: healLocator_miss)
  with trial_loop_history [OF t]
  have "healingHistory st' = AList.update original r (healingHistory st)" by simp
  with None show ?thesis by (simp add: update_conv')
next
  case (Some cached)
  with run show ?thesis by (simp add: healLocator_def)
qed

theorem healLocator_ledger_witness:
  "map_of (locatorCache new_TestHealer) ''.btn-old'' = None \<and>
   healLocator healing_page ''.btn-old'' None new_TestHealer =
     (\<lparr>success = True, originalLocator = ''.btn-old'', healedLocator = Some ''submit'',
       strategy = Some ''testId'', attempts = 1\<rparr>,
      healed_once,
      [IsVisible (First (Locator ''.btn-old'')) None] @
      attribute_calls (First (Locator ''.btn-old'')) @
      [IsVisible (First (GetByTestId ''submit'')) (Some 2000)]) \<and>
   map_of (healingHistory healed_once) ''.btn-old'' =
     Some \<lparr>success = True, originalLocator = ''.btn-old'', healedLocator = Some ''submit'',
       strategy = Some ''testId'', attempts = 1\<rparr>"
proof -
  have miss: "map_of (locatorCache new_TestHealer) ''.btn-old'' = None"
    by (simp add: new_TestHealer_def)
  from healLocator_ledger [OF healing_page_heal] miss
  have "map_of (healingHistory healed_once) ''.btn-old'' =
     Some \<lparr>success = True, originalLocator = ''.btn-old'', healedLocator = Some ''submit'',
       strategy = Some ''testId'', attempts = 1\<rparr>"
    by blast
  with miss healing_page_heal show ?thesis by blast
qed

text \<open>
  The claim as it was stated fails for a call served from the cache: after one healing,
  a second call for the same locator returns the \<open>cached\<close> result with zero attempts,
  and the history still holds the result of the first call.
\<close>

theorem healLocator_ledger_counterexample:
  "reachable healed_once \<and>
   fst (healLocator healing_page ''.btn-old'' None healed_once) =
     \<lparr>success = True, originalLocator = ''.btn-old'', healedLocator = Some ''submit'',
      strategy = Some ''cached'', attempts = 0\<rparr> \<and>
   map_of (healingHistory (fst (snd (healLocator healing_page ''.btn-old'' None healed_once))))
     ''.btn-old'' =
     Some \<lparr>success = True, originalLocator = ''.btn-old'', healedLocator = Some ''submit'',
      strategy = Some ''testId'', attempts = 1\<rparr> \<and>
   map_of (healingHistory (fst (snd (healLocator healing_page ''.btn-old'' None healed_once))))
     ''.btn-old''
   \<noteq> Some (fst (healLocator healing_page ''.btn-old'' None healed_once))"
  using reachable_healed_once by (simp add: healLocator_def healed_once_eq)

subsection \<open>Exhaustion\<close>

text \<open>
  C4. When the original locator has no cache entry and none of the synthesised
  strategies is visible in its trial, \<open>healLocator\<close> returns a failed result without a
  healed locator, whose attempts are the number of the synthesised strategies (zero
  when there are none), and the cache is unchanged: it still has no entry for the
  locator.
\<close>

theorem healLocator_exhaustion:
  assumes miss: "map_of (locatorCache st) original = None"
    and hidden: "\<forall>s \<in> set (fst (generateAlternativeStrategies pg original ctx)).
                   \<not> trial_visible pg s"
    and run: "healLocator pg original ctx st = (r, st', calls)"
  shows "success r = False \<and> healedLocator r = None \<and>
         attempts r = length (fst (generateAlternativeStrategies pg original ctx)) \<and>
         locatorCache st' = locatorCache st \<and>
         map_of (locatorCache st') original = None"
proof -
  let ?ss = "fst (generateAlternativeStrategies pg original ctx)"
  from hidden have "List.find (trial_visible pg) ?ss = None"
    by (simp add: find_None_iff)
  with run miss show ?thesis
    by (auto simp: healLocator_miss trial_loop_eq Let_def)
qed

theorem healLocator_exhaustion_witness:
  "map_of (locatorCache new_TestHealer) ''.btn-old'' = None \<and>
   length (fst (generateAlternativeStrategies dead_page ''.btn-old'' None)) = 3 \<and>
   success (fst (healLocator dead_page ''.btn-old'' None new_TestHealer)) = False \<and>
   attempts (fst (healLocator dead_page ''.btn-old'' None new_TestHealer)) = 3 \<and>
   locatorCache (fst (snd (healLocator dead_page ''.btn-old'' None new_TestHealer))) = []"
proof -
  have miss: "map_of (locatorCache new_TestHealer) ''.btn-old'' = None"
    by (simp add: new_TestHealer_def)
  have three: "length (fst (generateAlternativeStrategies dead_page ''.btn-old'' None)) = 3"
    by (simp add: dead_page_def demo_strategies)
  have hidden: "\<forall>s \<in> set (fst (generateAlternativeStrategies dead_page ''.btn-old'' None)).
      \<not> trial_visible dead_page s"
    by (simp add: dead_page_def demo_strategies) (simp add: demo_page_def trial_visible_def)
  from healLocator_exhaustion [OF miss hidden dead_page_heal] three
  have "attempts (fst (healLocator dead_page ''.btn-old'' None new_TestHealer)) = 3 \<and>
     success (fst (healLocator dead_page ''.btn-old'' None new_TestHealer)) = False \<and>
     locatorCache (fst (snd (healLocator dead_page ''.btn-old'' None new_TestHealer))) =
       locatorCache new_TestHealer"
    by (simp add: dead_page_heal)
  with miss three show ?thesis by (simp add: new_TestHealer_def)
qed

subsection \<open>findElement: the error of a failed healing\<close>

text \<open>
  C5. In every state of a healer, \<open>findElement\<close> throws the error
  \<open>Could not heal locator: <locator>\<close> exactly when healing is enabled, the direct
  resolution of the locator fails and the healing that follows fails. That error is a
  new one and never the error of the direct resolution thrown again. When the direct
  resolution fails and the healing succeeds, \<open>findElement\<close> returns the locator built
  from the healed value.
\<close>

theorem findElement_could_not_heal:
  assumes reach: "reachable st"
    and find: "findElement pg locator opts st = (res, st', calls)"
    and heal: "healLocator pg locator (context_of opts) st = (r, st1, calls1)"
  shows "(res = Inl (could_not_heal locator) \<longleftrightarrow>
            enableHealing_of opts \<and>
            waitFor pg (First (Locator locator)) (timeout_of opts) \<noteq> None \<and>
            \<not> success r) \<and>
         (res = Inl (could_not_heal locator) \<longrightarrow> (\<forall>e. res \<noteq> Inl (Rethrown e))) \<and>
         (enableHealing_of opts \<and>
          waitFor pg (First (Locator locator)) (timeout_of opts) \<noteq> None \<and> success r \<longrightarrow>
            (\<exists>healed. healedLocator r = Some healed \<and> res = Inr (Locator healed)))"
proof (cases "waitFor pg (First (Locator locator)) (timeout_of opts)")
  case None
  with find show ?thesis
    by (auto simp: findElement_direct_success could_not_heal_def)
next
  case (Some e)
  from reach have "healer_inv st" by (rule reachable_inv)
  from healLocator_inv [OF this heal] have ok: "healed_ok r" by simp
  show ?thesis
  proof (cases "success r")
    case True
    with ok obtain healed where "healedLocator r = Some healed" "healed \<noteq> []"
      by (cases "healedLocator r") (auto simp: healed_ok_def)
    with True Some find heal show ?thesis
      by (auto simp: findElement_direct_failure [OF Some heal] could_not_heal_def
          split: if_splits)
  next
    case False
    with Some find heal show ?thesis
      by (auto simp: findElement_direct_failure [OF Some heal] could_not_heal_def
          split: if_splits)
  qed
qed

theorem findElement_could_not_heal_witness:
  "reachable new_TestHealer \<and> enableHealing_of None \<and>
   waitFor dead_page (First (Locator ''.btn-old'')) (timeout_of None) \<noteq> None \<and>
   \<not> success (fst (healLocator dead_page ''.btn-old'' (context_of None) new_TestHealer)) \<and>
   fst (findElement dead_page ''.btn-old'' None new_TestHealer) =
     Inl (Error ''Could not heal locator: .btn-old'')"
proof -
  have ctx: "context_of None = None" by (simp add: context_of_def)
  have enabled: "enableHealing_of None" by (simp add: enableHealing_of_def)
  have direct: "waitFor dead_page (First (Locator ''.btn-old'')) (timeout_of None) \<noteq> None"
    by (simp add: dead_page_def demo_page_def)
  have failed: "\<not> success (fst (healLocator dead_page ''.btn-old'' (context_of None)
      new_TestHealer))"
    by (simp add: ctx dead_page_heal)
  have "fst (findElement dead_page ''.btn-old'' None new_TestHealer) =
      Inl (could_not_heal ''.btn-old'')"
    using findElement_could_not_heal [OF reachable_new, of dead_page "''.btn-old''" None
        "fst (findElement dead_page ''.btn-old'' None new_TestHealer)"
        "fst (snd (findElement dead_page ''.btn-old'' None new_TestHealer))"
        "snd (snd (findElement dead_page ''.btn-old'' None new_TestHealer))"
        "fst (healLocator dead_page ''.btn-old'' (context_of None) new_TestHealer)"
        "fst (snd (healLocator dead_page ''.btn-old'' (context_of None) new_TestHealer))"
        "snd (snd (healLocator dead_page ''.btn-old'' (context_of None) new_TestHealer))"]
      enabled direct failed
    by simp
  with enabled direct failed show ?thesis
    using reachable_new by (simp add: could_not_heal_def)
qed

subsection \<open>findElement with healing disabled\<close>

text \<open>
  C6. With \<open>enableHealing = false\<close>, a call of \<open>findElement\<close> whose direct resolution
  fails throws the error of that resolution, sends the page nothing but the one wait of
  the direct attempt (no synthesis and no trial runs) and leaves the healer, cache and
  history, as it was.
\<close>

theorem findElement_healing_disabled:
  assumes "opts = Some opt" and "o_enableHealing opt = Some False"
    and "waitFor pg (First (Locator locator)) (timeout_of opts) = Some e"
  shows "findElement pg locator opts st =
           (Inl (Rethrown e), st, [WaitFor (First (Locator locator)) (timeout_of opts)])"
  using assms by (simp add: findElement_def Let_def enableHealing_of_def)

theorem findElement_healing_disabled_witness:
  "o_enableHealing no_healing = Some False \<and>
   waitFor healing_page (First (Locator ''.btn-old'')) (timeout_of (Some no_healing)) =
     Some ''Timeout exceeded'' \<and>
   findElement healing_page ''.btn-old'' (Some no_healing) healed_once =
     (Inl (Rethrown ''Timeout exceeded''), healed_once,
      [WaitFor (First (Locator ''.btn-old'')) 5000])"
proof -
  have off: "o_enableHealing no_healing = Some False" by (simp add: no_healing_def)
  have t: "timeout_of (Some no_healing) = 5000" by (simp add: timeout_of_def no_healing_def)
  have direct: "waitFor healing_page (First (Locator ''.btn-old''))
      (timeout_of (Some no_healing)) = Some ''Timeout exceeded''"
    by (simp add: healing_page_def demo_page_def)
  from findElement_healing_disabled [OF refl off direct, of healed_once] off direct t
  show ?thesis by simp
qed

subsection \<open>Export of the healed locators\<close>

text \<open>
  C8. In every state of a healer, \<open>exportHealedLocators\<close> returns, in the insertion
  order of the history, one triple for each entry with \<open>success = true\<close>, made of the
  key of the entry, its recorded healed locator and its recorded strategy, and no triple
  for an entry with \<open>success = false\<close>. The keys of the history are distinct, so this
  is one triple for each healed locator.
\<close>

theorem exportHealedLocators_complete:
  assumes "reachable st"
  shows "map (\<lambda>(original, healed, used). (original, Some healed, Some used))
           (exportHealedLocators st) =
         map (\<lambda>(original, r). (original, healedLocator r, strategy r))
           (filter (\<lambda>(original, r). success r) (healingHistory st)) \<and>
         distinct (map fst (healingHistory st))"
proof -
  from assms have inv: "healer_inv st" by (rule reachable_inv)
  then have "\<forall>entry \<in> set (healingHistory st). healed_ok (snd entry)"
    by (simp add: healer_inv_def)
  from export_loop_complete [OF this] inv show ?thesis
    by (simp add: exportHealedLocators_def healer_inv_def)
qed

theorem exportHealedLocators_complete_witness:
  "reachable healed_twice \<and>
   map fst (healingHistory healed_twice) = [''.btn-old'', ''.gone''] \<and>
   map (success \<circ> snd) (healingHistory healed_twice) = [True, False] \<and>
   exportHealedLocators healed_twice = [(''.btn-old'', ''submit'', ''testId'')]"
proof -
  have keys: "map fst (healingHistory healed_twice) = [''.btn-old'', ''.gone'']"
    and flags: "map (success \<circ> snd) (healingHistory healed_twice) = [True, False]"
    by (simp_all add: healed_twice_eq)
  from exportHealedLocators_complete [OF reachable_healed_twice]
  have "map (\<lambda>(original, healed, used). (original, Some healed, Some used))
      (exportHealedLocators healed_twice) = [(''.btn-old'', Some ''submit'', Some ''testId'')]"
    by (simp add: healed_twice_eq)
  then have "exportHealedLocators healed_twice = [(''.btn-old'', ''submit'', ''testId'')]"
    by (cases "exportHealedLocators healed_twice") auto
  with keys flags reachable_healed_twice show ?thesis by simp
qed

subsection \<open>A successful result has a healed locator\<close>

text \<open>
  C9. In every state of a healer, the result that \<open>healLocator\<close> returns (fresh or
  served from the cache), every result stored in the history after the call and every
  value stored in the cache after the call satisfy: a successful result has a healed
  locator, which is a non-empty string, and a cached value is a non-empty string.
\<close>

theorem healLocator_success_has_locator:
  assumes reach: "reachable st"
    and run: "healLocator pg original ctx st = (r, st', calls)"
  shows "(success r \<longrightarrow> (\<exists>healed. healedLocator r = Some healed \<and> healed \<noteq> [])) \<and>
         (\<forall>entry \<in> set (healingHistory st').
            success (snd entry) \<longrightarrow>
              (\<exists>healed. healedLocator (snd entry) = Some healed \<and> healed \<noteq> [])) \<and>
         (\<forall>entry \<in> set (locatorCache st'). snd entry \<noteq> [])"
proof -
  have truthy_iff: "truthy a \<longleftrightarrow> (\<exists>v. a = Some v \<and> v \<noteq> [])" for a
    by (cases a) simp_all
  from reach have "healer_inv st" by (rule reachable_inv)
  from healLocator_inv [OF this run] show ?thesis
    by (auto simp: healer_inv_def healed_ok_def truthy_iff)
qed

theorem healLocator_success_has_locator_witness:
  "reachable healed_once \<and>
   success (fst (healLocator dead_page ''.btn-old'' None healed_once)) \<and>
   healedLocator (fst (healLocator dead_page ''.btn-old'' None healed_once)) = Some ''submit'' \<and>
   (\<exists>healed. healedLocator (fst (healLocator dead_page ''.btn-old'' None healed_once))
      = Some healed \<and> healed \<noteq> [])"
proof -
  have r: "success (fst (healLocator dead_page ''.btn-old'' None healed_once))"
    "healedLocator (fst (healLocator dead_page ''.btn-old'' None healed_once)) = Some ''submit''"
    by (simp_all add: healLocator_def healed_once_eq)
  from healLocator_success_has_locator [OF reachable_healed_once,
      of dead_page "''.btn-old''" None
        "fst (healLocator dead_page ''.btn-old'' None healed_once)"
        "fst (snd (healLocator dead_page ''.btn-old'' None healed_once))"
        "snd (snd (healLocator dead_page ''.btn-old'' None healed_once))"] r(1)
  have "\<exists>healed. healedLocator (fst (healLocator dead_page ''.btn-old'' None healed_once))
      = Some healed \<and> healed \<noteq> []"
    by simp
  with r reachable_healed_once show ?thesis by blast
qed

subsection \<open>The handle that findElement returns after healing\<close>



subsection \<open>The statistics\<close>

text \<open>
  C7, amended. For a history with N entries of which S are successful,
  \<open>getHealingStats\<close> returns \<open>totalAttempts = N\<close>, \<open>successful = S\<close>, \<open>failed = N - S\<close>
  and \<open>cachedLocators\<close> equal to the size of the cache. With \<open>N = 0\<close> the success rate
  is 0. With \<open>N > 0\<close> the success rate is the double nearest to a decimal with two
  digits that lies within \<open>0.005 + 10^(-13)\<close> of \<open>100 * S / N\<close>; and when \<open>100 * S / N\<close> is
  not an exact tie between two such decimals (that is, \<open>20000 * S\<close> is not an odd
  multiple of \<open>N\<close>) and \<open>N\<close> is at most \<open>10^10\<close>, it is the double nearest to
  \<open>round(100 * S / N, 2)\<close>.
\<close>

theorem getHealingStats_correct:
  "totalAttempts (getHealingStats st) = int (ledger_entries st) \<and>
   successful (getHealingStats st) = int (ledger_successes st) \<and>
   failed (getHealingStats st) = int (ledger_entries st) - int (ledger_successes st) \<and>
   cachedLocators (getHealingStats st) = int (length (locatorCache st)) \<and>
   (ledger_entries st = 0 \<longrightarrow> successRate (getHealingStats st) = 0) \<and>
   (0 < ledger_entries st \<longrightarrow>
      (\<exists>n::int.
         successRate (getHealingStats st) = to_double (of_int n / 100) \<and>
         \<bar>of_int n / 100 -
          100 * of_nat (ledger_successes st) / (of_nat (ledger_entries st) :: rat)\<bar>
           \<le> 1 / 200 + 1 / 10 ^ 13)) \<and>
   (0 < ledger_entries st \<and> ledger_entries st \<le> 10 ^ 10 \<and>
    (\<forall>k::int. 20000 * int (ledger_successes st) \<noteq> (2 * k + 1) * int (ledger_entries st)) \<longrightarrow>
      successRate (getHealingStats st) =
        to_double (round_decimal
          (100 * of_nat (ledger_successes st) / of_nat (ledger_entries st)) 2))"
proof -
  define t where "t = int (ledger_entries st)"
  define s where "s = int (ledger_successes st)"
  have count: "length (filter (success \<circ> snd) (healingHistory st)) = ledger_successes st"
    by (simp add: ledger_successes_def comp_def)
  have s: "0 \<le> s" "s \<le> t"
    by (simp_all add: s_def t_def ledger_successes_def ledger_entries_def)
  have fields: "totalAttempts (getHealingStats st) = t" "successful (getHealingStats st) = s"
    "failed (getHealingStats st) = t - s"
    "cachedLocators (getHealingStats st) = int (length (locatorCache st))"
    by (simp_all add: getHealingStats_def Let_def count t_def s_def ledger_entries_def)
  have "parseFloat (toFixed 0 2) = 0" by code_simp
  then have zero: "successRate (getHealingStats st) = 0" if "ledger_entries st = 0"
    using that by (simp add: getHealingStats_def Let_def ledger_entries_def)
  have rate: "successRate (getHealingStats st) =
      parseFloat (toFixed (double_mul (double_div (of_int s) (of_int t)) 100) 2)"
    if "0 < ledger_entries st"
    using that
    by (simp add: getHealingStats_def Let_def count t_def s_def ledger_entries_def)
  have near: "\<exists>n::int.
      successRate (getHealingStats st) = to_double (of_int n / 100) \<and>
      \<bar>of_int n / 100 -
          100 * of_nat (ledger_successes st) / (of_nat (ledger_entries st) :: rat)\<bar>
        \<le> 1 / 200 + 1 / 10 ^ 13"
    if pos: "0 < ledger_entries st"
  proof -
    from pos have t: "0 < t" by (simp add: t_def)
    let ?x = "double_mul (double_div (of_int s) (of_int t)) 100"
    define n where "n = \<lfloor>?x * 100 + 1 / 2\<rfloor>"
    have d: "toFixed ?x 2 = of_int n / 100" by (simp add: toFixed_def n_def)
    have r: "successRate (getHealingStats st) = to_double (of_int n / 100)"
      using rate [OF pos] by (simp only: parseFloat_def d)
    from success_rate_error [OF s t]
    have "\<bar>of_int n / 100 - 100 * (of_int s / of_int t :: rat)\<bar> \<le> 1 / 200 + 1 / 10 ^ 13"
      by (simp only: d)
    then have b: "\<bar>of_int n / 100 -
        100 * of_nat (ledger_successes st) / (of_nat (ledger_entries st) :: rat)\<bar>
        \<le> 1 / 200 + 1 / 10 ^ 13"
      by (simp only: s_def t_def of_int_of_nat_eq times_divide_eq_right)
    from r b show ?thesis by blast
  qed
  have exact: "successRate (getHealingStats st) =
      to_double (round_decimal
        (100 * of_nat (ledger_successes st) / of_nat (ledger_entries st)) 2)"
    if pos: "0 < ledger_entries st" and small: "ledger_entries st \<le> 10 ^ 10"
      and no_tie: "\<forall>k::int. 20000 * int (ledger_successes st) \<noteq>
        (2 * k + 1) * int (ledger_entries st)"
  proof -
    from pos have t: "0 < t" by (simp add: t_def)
    from small have "int (ledger_entries st) \<le> int (10 ^ 10)" by (simp only: of_nat_le_iff)
    then have t': "t \<le> 10 ^ 10" by (simp add: t_def)
    from no_tie have "\<forall>k::int. 20000 * s \<noteq> (2 * k + 1) * t" by (simp add: s_def t_def)
    from success_rate_no_tie [OF s t t' this] show ?thesis
      by (simp add: rate [OF pos] parseFloat_def s_def t_def)
  qed
  from fields zero near exact show ?thesis by (simp add: t_def s_def)
qed

theorem getHealingStats_correct_witness:
  "ledger_entries new_TestHealer = 0 \<and>
   successRate (getHealingStats new_TestHealer) = 0 \<and>
   ledger_entries healed_twice = 2 \<and> ledger_successes healed_twice = 1 \<and>
   (\<forall>k::int. 20000 * int 1 \<noteq> (2 * k + 1) * int 2) \<and>
   totalAttempts (getHealingStats healed_twice) = 2 \<and>
   successful (getHealingStats healed_twice) = 1 \<and>
   failed (getHealingStats healed_twice) = 1 \<and>
   cachedLocators (getHealingStats healed_twice) = 1 \<and>
   successRate (getHealingStats healed_twice) = 50"
proof -
  have empty: "ledger_entries new_TestHealer = 0"
    by (simp add: ledger_entries_def new_TestHealer_def)
  have two: "ledger_entries healed_twice = 2" "ledger_successes healed_twice = 1"
    "length (locatorCache healed_twice) = 1"
    by (simp_all add: ledger_entries_def ledger_successes_def healed_twice_eq)
  have no_tie: "\<forall>k::int. 20000 * int 1 \<noteq> (2 * k + 1) * int 2"
    by presburger
  have fifty: "to_double (round_decimal (100 * of_nat 1 / of_nat 2) 2) = 50"
    by code_simp
  note new = getHealingStats_correct [of new_TestHealer]
  note twice = getHealingStats_correct [of healed_twice]
  from new empty have "successRate (getHealingStats new_TestHealer) = 0" by blast
  moreover from twice two no_tie fifty
  have "successRate (getHealingStats healed_twice) = 50" by simp
  moreover from twice two
  have "totalAttempts (getHealingStats healed_twice) = 2"
    "successful (getHealingStats healed_twice) = 1"
    "failed (getHealingStats healed_twice) = 1"
    "cachedLocators (getHealingStats healed_twice) = 1"
    by simp_all
  ultimately show ?thesis using empty two no_tie by blast
qed

text \<open>
  The claim as it was stated fails at an exact tie. With 23 successes among 160
  entries \<open>100 * S / N\<close> is 14.375, whose rounding to two digits is 14.38 (with ties
  upward and with ties to even alike). The double nearest to \<open>23 / 160\<close> times 100 gives
  a double just below 14.375, so \<open>toFixed(2)\<close> prints 14.37.
\<close>

theorem getHealingStats_correct_counterexample:
  "reachable healer_160 \<and> ledger_entries healer_160 = 160 \<and> ledger_successes healer_160 = 23 \<and>
   successRate (getHealingStats healer_160) = to_double (1437 / 100) \<and>
   round_decimal (100 * 23 / 160) 2 = 1438 / 100 \<and>
   of_int (round_half_even (100 * (100 * 23 / 160))) / 100 = (1438 / 100 :: rat) \<and>
   to_double (1437 / 100) \<noteq> to_double (1438 / 100) \<and>
   to_double (1437 / 100) \<noteq> 1438 / 100 \<and>
   successRate (getHealingStats healer_160) \<noteq> round_decimal (100 * 23 / 160) 2 \<and>
   successRate (getHealingStats healer_160) \<noteq> to_double (round_decimal (100 * 23 / 160) 2)"
proof -
  have n: "ledger_entries healer_160 = 160" "ledger_successes healer_160 = 23"
    by (simp_all add: ledger_entries_def ledger_successes_def healer_160_def healer_after_def
        clearCache_def) code_simp
  have count: "length (filter (success \<circ> snd) (healingHistory healer_160)) = 23"
    using n(2) by (simp add: ledger_successes_def comp_def)
  have "parseFloat (toFixed (double_mul (double_div 23 160) 100) 2) = to_double (1437 / 100)"
    by code_simp
  then have rate: "successRate (getHealingStats healer_160) = to_double (1437 / 100)"
    using n(1) count by (simp add: getHealingStats_def Let_def ledger_entries_def)
  have spec: "round_decimal (100 * 23 / 160) 2 = 1438 / 100"
    "of_int (round_half_even (100 * (100 * 23 / 160))) / 100 = (1438 / 100 :: rat)"
    by code_simp+
  have differ: "to_double (1437 / 100) \<noteq> to_double (1438 / 100)"
    "to_double (1437 / 100) \<noteq> 1438 / 100"
    by code_simp+
  have r1: "successRate (getHealingStats healer_160) \<noteq> round_decimal (100 * 23 / 160) 2"
    unfolding rate spec(1) by (rule differ(2))
  have r2: "successRate (getHealingStats healer_160) \<noteq>
      to_double (round_decimal (100 * 23 / 160) 2)"
    unfolding rate spec(1) by (rule differ(1))
  from reachable_healer_160 n rate spec differ r1 r2 show ?thesis by blast
qed

end
